theory Spec2Isabelle
  imports Main "HOL-Library.Multiset"
begin

section \<open>Order records and listing responses\<close>

text \<open>
  The dashboard pages (\<^verbatim>\<open>src/unnamed/part_001\<close> and \<^verbatim>\<open>src/unnamed/part_002\<close>)
  share the type \<^verbatim>\<open>RawOrder\<close>: a required \<^verbatim>\<open>order_id\<close> and eleven optional
  strings. An optional field is a \<open>string option\<close>, \<open>None\<close> standing for
  \<^verbatim>\<open>undefined\<close>. The field \<^verbatim>\<open>zip\<close> is named \<open>zip_code\<close> here.
\<close>

record RawOrder =
  order_id :: string
  name :: "string option"
  phone_number :: "string option"
  city :: "string option"
  bookId :: "string option"
  bookStyle :: "string option"
  coverPdf :: "string option"
  interiorPdf :: "string option"
  printer :: "string option"
  label_url :: "string option"
  print_sent_at :: "string option"
  zip_code :: "string option"

text \<open>The record \<^verbatim>\<open>{ order_id: oid }\<close>, every optional field absent.\<close>

definition bare_order :: "string \<Rightarrow> RawOrder" where
  "bare_order oid =
     \<lparr>order_id = oid, name = None, phone_number = None, city = None, bookId = None,
      bookStyle = None, coverPdf = None, interiorPdf = None, printer = None,
      label_url = None, print_sent_at = None, zip_code = None\<rparr>"

text \<open>
  JavaScript truthiness of an optional string: \<^verbatim>\<open>undefined\<close>, \<^verbatim>\<open>null\<close> and
  the empty string are falsy, every other string is truthy.
\<close>

definition truthy :: "string option \<Rightarrow> bool" where
  "truthy v = (case v of None \<Rightarrow> False | Some s \<Rightarrow> s \<noteq> [])"

text \<open>\<^verbatim>\<open>v || ""\<close> on an optional string.\<close>

definition or_empty :: "string option \<Rightarrow> string" where
  "or_empty v = (if truthy v then (case v of Some s \<Rightarrow> s | None \<Rightarrow> []) else [])"

text \<open>
  What \<^verbatim>\<open>await fetch(...)\<close> followed by \<^verbatim>\<open>await res.json()\<close> can give:
  the request or the decoding throws (\<open>Threw\<close>), the response is not OK (with its
  status), or it is OK with a decoded body. The body is a bare array of records or an
  object with optional \<^verbatim>\<open>items\<close> and \<^verbatim>\<open>total\<close>; an array element may be
  \<^verbatim>\<open>null\<close> (\<open>None\<close>).
\<close>

datatype json_body =
  JArray "RawOrder option list"
| JObject "RawOrder option list option" "int option"

datatype response = Threw | NotOk nat | Ok json_body

text \<open>
  \<^verbatim>\<open>const data = Array.isArray(json) ? json : (json.items as RawOrder[]) ?? []\<close>
\<close>

fun body_items :: "json_body \<Rightarrow> RawOrder option list" where
  "body_items (JArray xs) = xs"
| "body_items (JObject None t) = []"
| "body_items (JObject (Some xs) t) = xs"

section \<open>The polling loop \<^verbatim>\<open>pollForLabels\<close>\<close>

subsection \<open>The result object\<close>

text \<open>
  The result is declared \<^verbatim>\<open>Record<string, string | null>\<close> and created as the plain
  object \<^verbatim>\<open>{}\<close>. A plain object has its own properties (\<open>props\<close>, with \<open>Some None\<close>
  for the value \<^verbatim>\<open>null\<close>) and a prototype, which is \<^verbatim>\<open>Object.prototype\<close> until
  it is set to \<^verbatim>\<open>null\<close> (\<open>null_proto\<close>).
\<close>

record js_object =
  props :: "string \<rightharpoonup> string option"
  null_proto :: bool

text \<open>\<^verbatim>\<open>{}\<close>\<close>

definition empty_object :: js_object where
  "empty_object = \<lparr>props = Map.empty, null_proto = False\<rparr>"

text \<open>
  The property names of \<^verbatim>\<open>Object.prototype\<close>. All are methods but
  \<^verbatim>\<open>__proto__\<close>, which is an accessor: its getter gives the prototype, its setter
  replaces the prototype when the value is an object or \<^verbatim>\<open>null\<close> and does nothing for
  a string.
\<close>

definition object_prototype_names :: "string list" where
  "object_prototype_names =
     [''constructor'', ''__defineGetter__'', ''__defineSetter__'', ''hasOwnProperty'',
      ''__lookupGetter__'', ''__lookupSetter__'', ''isPrototypeOf'', ''propertyIsEnumerable'',
      ''toString'', ''valueOf'', ''__proto__'', ''toLocaleString'']"

text \<open>
  The assignment \<^verbatim>\<open>obj[k] = v\<close> for \<open>v\<close> a string or \<^verbatim>\<open>null\<close> (\<open>None\<close>). An own
  property is overwritten. Without one, the key \<^verbatim>\<open>__proto__\<close> reaches the inherited
  setter as long as the prototype is \<^verbatim>\<open>Object.prototype\<close>: \<^verbatim>\<open>null\<close> becomes the
  prototype, a string is dropped, and no property is created. Every other assignment
  creates the property.
\<close>

definition obj_set :: "js_object \<Rightarrow> string \<Rightarrow> string option \<Rightarrow> js_object" where
  "obj_set obj k v =
     (if props obj k = None \<and> k = ''__proto__'' \<and> \<not> null_proto obj
      then (case v of None \<Rightarrow> obj\<lparr>null_proto := True\<rparr> | Some s \<Rightarrow> obj)
      else obj\<lparr>props := (props obj)(k \<mapsto> v)\<rparr>)"

text \<open>
  What reading \<^verbatim>\<open>obj[k]\<close> gives: \<^verbatim>\<open>undefined\<close>, \<^verbatim>\<open>null\<close>, a string, or the
  member of \<^verbatim>\<open>Object.prototype\<close> of that name (a function, or \<^verbatim>\<open>Object.prototype\<close>
  itself for \<^verbatim>\<open>__proto__\<close>).
\<close>

datatype js_value = Undefined | Null | Text string | Member string

text \<open>
  The read \<^verbatim>\<open>obj[k]\<close>: the own property if there is one, else what the prototype
  has under that name.
\<close>

definition obj_get :: "js_object \<Rightarrow> string \<Rightarrow> js_value" where
  "obj_get obj k =
     (case props obj k of
        Some None \<Rightarrow> Null
      | Some (Some s) \<Rightarrow> Text s
      | None \<Rightarrow> if \<not> null_proto obj \<and> k \<in> set object_prototype_names then Member k
                else Undefined)"

text \<open>Truthiness of such a value: functions and objects are truthy.\<close>

fun value_truthy :: "js_value \<Rightarrow> bool" where
  "value_truthy Undefined = False"
| "value_truthy Null = False"
| "value_truthy (Text s) = (s \<noteq> [])"
| "value_truthy (Member n) = True"

subsection \<open>The loop\<close>

text \<open>\<^verbatim>\<open>for (const id of orderIds) result[id] = null\<close>\<close>

fun init_result :: "string list \<Rightarrow> js_object \<Rightarrow> js_object" where
  "init_result [] result = result"
| "init_result (oid # ids) result = init_result ids (obj_set result oid None)"

text \<open>
  \<^verbatim>\<open>for (const d of data) if (d && d.order_id) map.set(d.order_id, d.label_url)\<close>
  on a \<^verbatim>\<open>Map\<close>, which has no inherited keys: a later record with the same identifier
  overwrites an earlier one.
\<close>

fun build_map :: "RawOrder option list \<Rightarrow> (string \<rightharpoonup> string option) \<Rightarrow> (string \<rightharpoonup> string option)" where
  "build_map [] m = m"
| "build_map (None # ds) m = build_map ds m"
| "build_map (Some d # ds) m =
     (if order_id d \<noteq> [] then build_map ds (m(order_id d \<mapsto> label_url d))
      else build_map ds m)"

text \<open>\<^verbatim>\<open>map.get(id)\<close>: \<^verbatim>\<open>undefined\<close> for a missing key and for a stored \<^verbatim>\<open>undefined\<close>.\<close>

definition map_get :: "(string \<rightharpoonup> string option) \<Rightarrow> string \<Rightarrow> string option" where
  "map_get m k = (case m k of None \<Rightarrow> None | Some v \<Rightarrow> v)"

text \<open>
  The inner loop over the targets, on the pair of \<^verbatim>\<open>result\<close> and \<^verbatim>\<open>allFound\<close>:
  \<^verbatim>\<open>const lbl = map.get(id); if (lbl) result[id] = lbl; else allFound = false\<close>
  (the loop variable \<^verbatim>\<open>id\<close> is \<open>oid\<close> here). Under the guard \<open>lbl\<close> is a non-empty
  string.
\<close>

fun scan_targets :: "(string \<rightharpoonup> string option) \<Rightarrow> string list \<Rightarrow> js_object \<times> bool \<Rightarrow> js_object \<times> bool" where
  "scan_targets m [] st = st"
| "scan_targets m (oid # ids) (result, allFound) =
     (if truthy (map_get m oid)
      then scan_targets m ids (obj_set result oid (map_get m oid), allFound)
      else scan_targets m ids (result, False))"

text \<open>
  The body of the \<^verbatim>\<open>try\<close> block of one attempt. It gives the result object after the
  attempt and whether \<^verbatim>\<open>return result\<close> is taken. A thrown error and a non-OK
  response are only logged.
\<close>

fun poll_attempt :: "string list \<Rightarrow> response \<Rightarrow> js_object \<Rightarrow> js_object \<times> bool" where
  "poll_attempt orderIds Threw result = (result, False)"
| "poll_attempt orderIds (NotOk status) result = (result, False)"
| "poll_attempt orderIds (Ok json) result =
     scan_targets (build_map (body_items json) Map.empty) orderIds (result, True)"

text \<open>
  What a run does, in order: the request of attempt \<open>k\<close>, and the timer of
  \<^verbatim>\<open>await new Promise((r) => setTimeout(r, pollIntervalMs))\<close>.
\<close>

datatype event = Poll nat | Delay nat

text \<open>
  \<^verbatim>\<open>for (let attempt = 0; attempt < maxAttempts; attempt++) { try {...} catch {...}
  await new Promise(...) }  return result\<close>. The listing collaborator is the function
  \<open>listing\<close> from the attempt number to what the request of that attempt gives.
\<close>

function poll_loop :: "string list \<Rightarrow> nat \<Rightarrow> nat \<Rightarrow> (nat \<Rightarrow> response) \<Rightarrow> nat \<Rightarrow> js_object \<Rightarrow> js_object \<times> event list" where
  "poll_loop orderIds pollIntervalMs maxAttempts listing attempt result =
     (if attempt < maxAttempts then
        (case poll_attempt orderIds (listing attempt) result of
           (result', True) \<Rightarrow> (result', [Poll attempt])
         | (result', False) \<Rightarrow>
             (case poll_loop orderIds pollIntervalMs maxAttempts listing (Suc attempt) result' of
                (final, evs) \<Rightarrow> (final, Poll attempt # Delay pollIntervalMs # evs)))
      else (result, []))"
  by pat_completeness auto
termination
  by (relation "measure (\<lambda>(orderIds, pollIntervalMs, maxAttempts, listing, attempt, result). maxAttempts - attempt)") auto

text \<open>\<^verbatim>\<open>const result = {}\<close>, the initialisation and the loop.\<close>

definition pollForLabels :: "string list \<Rightarrow> nat \<Rightarrow> nat \<Rightarrow> (nat \<Rightarrow> response) \<Rightarrow> js_object \<times> event list" where
  "pollForLabels orderIds pollIntervalMs maxAttempts listing =
     poll_loop orderIds pollIntervalMs maxAttempts listing 0 (init_result orderIds empty_object)"

declare poll_loop.simps [simp del]

text \<open>
  What a listing response says about one identifier, read off the list of records: the
  \<^verbatim>\<open>label_url\<close> of the last record that carries the identifier. Records that are
  \<^verbatim>\<open>null\<close> or have an empty \<^verbatim>\<open>order_id\<close> say nothing.
\<close>

fun listed :: "RawOrder option list \<Rightarrow> string \<Rightarrow> string option option" where
  "listed [] k = None"
| "listed (None # ds) k = listed ds k"
| "listed (Some d # ds) k =
     (case listed ds k of
        Some v \<Rightarrow> Some v
      | None \<Rightarrow> if order_id d = k \<and> k \<noteq> [] then Some (label_url d) else None)"

text \<open>
  The label a response reports for a target: a non-empty \<^verbatim>\<open>label_url\<close> in an OK
  response. A failed request reports nothing.
\<close>

fun reported_label :: "response \<Rightarrow> string \<Rightarrow> string option" where
  "reported_label (Ok json) k =
     (case listed (body_items json) k of
        Some (Some l) \<Rightarrow> if l \<noteq> [] then Some l else None
      | _ \<Rightarrow> None)"
| "reported_label Threw k = None"
| "reported_label (NotOk status) k = None"

text \<open>An OK response that reports a label for every target.\<close>

fun reports_all :: "string list \<Rightarrow> response \<Rightarrow> bool" where
  "reports_all orderIds (Ok json) = list_all (\<lambda>k. reported_label (Ok json) k \<noteq> None) orderIds"
| "reports_all orderIds Threw = False"
| "reports_all orderIds (NotOk status) = False"

text \<open>The events of \<open>n\<close> attempts that all went on to the timer.\<close>

definition rounds :: "nat \<Rightarrow> nat \<Rightarrow> event list" where
  "rounds pollIntervalMs n = concat (map (\<lambda>a. [Poll a, Delay pollIntervalMs]) [0..<n])"

fun is_poll :: "event \<Rightarrow> bool" where
  "is_poll (Poll a) = True"
| "is_poll (Delay ms) = False"

definition poll_count :: "event list \<Rightarrow> nat" where
  "poll_count evs = length (filter is_poll evs)"

definition delay_count :: "event list \<Rightarrow> nat" where
  "delay_count evs = length (filter (\<lambda>e. \<not> is_poll e) evs)"

section \<open>The completion patch of \<^verbatim>\<open>shipNow\<close>\<close>

text \<open>
  \<^verbatim>\<open>setOrders((prev) => prev.map((o) => { if (pollResult[o.order_id]) return { ...o,
  label_url: pollResult[o.order_id] || o.label_url }; return o; }))\<close>.
  \<^verbatim>\<open>pollResult\<close> is the plain object that \<^verbatim>\<open>pollForLabels\<close> returned, so the read
  \<^verbatim>\<open>pollResult[o.order_id]\<close> is \<open>obj_get\<close> and can give an inherited member.
\<close>

text \<open>An optional string as a value, and \<^verbatim>\<open>a || b\<close> on values.\<close>

fun as_value :: "string option \<Rightarrow> js_value" where
  "as_value None = Undefined"
| "as_value (Some s) = Text s"

definition js_or :: "js_value \<Rightarrow> js_value \<Rightarrow> js_value" where
  "js_or a b = (if value_truthy a then a else b)"

text \<open>
  A record of the store after the patch: a record as typed, or the record \<open>ord\<close> with
  the member \<open>n\<close> of \<^verbatim>\<open>Object.prototype\<close> in its \<^verbatim>\<open>label_url\<close> where a string
  should be.
\<close>

datatype patched_order = Order RawOrder | OrderWithMember RawOrder string

text \<open>The object literal \<^verbatim>\<open>{ ...o, label_url: v }\<close>.\<close>

fun put_label :: "RawOrder \<Rightarrow> js_value \<Rightarrow> patched_order" where
  "put_label ord (Text s) = Order (ord\<lparr>label_url := Some s\<rparr>)"
| "put_label ord Undefined = Order (ord\<lparr>label_url := None\<rparr>)"
| "put_label ord Null = Order (ord\<lparr>label_url := None\<rparr>)"
| "put_label ord (Member n) = OrderWithMember ord n"

definition patch_order :: "js_object \<Rightarrow> RawOrder \<Rightarrow> patched_order" where
  "patch_order pollResult ord =
     (if value_truthy (obj_get pollResult (order_id ord))
      then put_label ord (js_or (obj_get pollResult (order_id ord)) (as_value (label_url ord)))
      else Order ord)"

definition apply_patch :: "js_object \<Rightarrow> RawOrder list \<Rightarrow> patched_order list" where
  "apply_patch pollResult prev = map (patch_order pollResult) prev"

text \<open>An identifier that has a non-empty label among the own properties.\<close>

definition resolved :: "js_object \<Rightarrow> string \<Rightarrow> bool" where
  "resolved pollResult k =
     (case props pollResult k of Some (Some l) \<Rightarrow> l \<noteq> [] | _ \<Rightarrow> False)"

text \<open>A read that falls through to a member of \<^verbatim>\<open>Object.prototype\<close>.\<close>

definition inherited :: "js_object \<Rightarrow> string \<Rightarrow> bool" where
  "inherited pollResult k =
     (props pollResult k = None \<and> \<not> null_proto pollResult \<and> k \<in> set object_prototype_names)"

section \<open>The store refresh \<^verbatim>\<open>fetchGenesisOrders\<close>\<close>

subsection \<open>Normalising and parsing \<^verbatim>\<open>print_sent_at\<close>\<close>

text \<open>The regular expression class \<^verbatim>\<open>\d\<close>.\<close>

definition is_digit :: "char \<Rightarrow> bool" where
  "is_digit c = (c \<in> set ''0123456789'')"

definition is_sign :: "char \<Rightarrow> bool" where
  "is_sign c = (c = CHR ''+'' \<or> c = CHR ''-'')"

text \<open>
  \<^verbatim>\<open>/[+-]\d{2}:?\d{2}$/\<close>: the string ends with a sign, two digits, an optional
  colon and two digits. The two shapes are tested on the reversed string.
\<close>

fun offset_rev :: "string \<Rightarrow> bool" where
  "offset_rev [d4, d3, d2, d1, s] =
     (is_digit d4 \<and> is_digit d3 \<and> is_digit d2 \<and> is_digit d1 \<and> is_sign s)"
| "offset_rev [d4, d3, c, d2, d1, s] =
     (is_digit d4 \<and> is_digit d3 \<and> c = CHR '':'' \<and> is_digit d2 \<and> is_digit d1 \<and> is_sign s)"
| "offset_rev r = False"

definition ends_with_offset :: "string \<Rightarrow> bool" where
  "ends_with_offset v = (offset_rev (take 5 (rev v)) \<or> offset_rev (take 6 (rev v)))"

text \<open>
  \<^verbatim>\<open>/[zZ]|[+-]\d{2}:?\d{2}$/.test(v)\<close>: a \<^verbatim>\<open>z\<close> or \<^verbatim>\<open>Z\<close> anywhere, or an
  offset at the end.
\<close>

definition has_zone :: "string \<Rightarrow> bool" where
  "has_zone v = (CHR ''z'' \<in> set v \<or> CHR ''Z'' \<in> set v \<or> ends_with_offset v)"

text \<open>
  \<^verbatim>\<open>v.replace(/(\.\d{3})\d+/, "$1")\<close>: at the leftmost dot that is followed by four
  or more digits, the first three digits stay and the rest of that run of digits goes.
\<close>

fun truncate_fraction :: "string \<Rightarrow> string" where
  "truncate_fraction [] = []"
| "truncate_fraction (c # cs) =
     (if c = CHR ''.'' \<and> 4 \<le> length (takeWhile is_digit cs)
      then c # take 3 cs @ dropWhile is_digit cs
      else c # truncate_fraction cs)"

definition normalized :: "string \<Rightarrow> string" where
  "normalized v = (if \<not> has_zone v then truncate_fraction v @ ''Z'' else v)"

text \<open>
  The comparator's \<^verbatim>\<open>parse\<close>. The platform's \<^verbatim>\<open>new Date(s).getTime()\<close> is the
  parameter \<open>getTime\<close>: milliseconds since the epoch, or \<open>None\<close> for \<^verbatim>\<open>NaN\<close>.
  \<^verbatim>\<open>if (!v) return 0; ...; return d.getTime() || 0\<close>.
\<close>

fun parse :: "(string \<Rightarrow> int option) \<Rightarrow> string option \<Rightarrow> int" where
  "parse getTime None = 0"
| "parse getTime (Some v) =
     (if v = [] then 0
      else (case getTime (normalized v) of None \<Rightarrow> 0 | Some t \<Rightarrow> t))"


text \<open>
  \<^verbatim>\<open>trimmed.sort((a, b) => parse(b.print_sent_at) - parse(a.print_sent_at))\<close>.
  \<^verbatim>\<open>Array.prototype.sort\<close> is stable, and the comparator orders by one integer key,
  so the outcome is the stable sort on the negated key.
\<close>

definition sort_orders :: "(string \<Rightarrow> int option) \<Rightarrow> RawOrder list \<Rightarrow> RawOrder list" where
  "sort_orders getTime trimmed = sort_key (\<lambda>ord. - parse getTime (print_sent_at ord)) trimmed"

subsection \<open>A platform clock for the complete UTC form\<close>

text \<open>
  \<^verbatim>\<open>Date\<close> on the ECMAScript date-time form \<^verbatim>\<open>YYYY-MM-DDTHH:mm:ssZ\<close> and
  \<^verbatim>\<open>YYYY-MM-DDTHH:mm:ss.sssZ\<close>: the milliseconds since 1970-01-01T00:00:00Z. Every
  other string is \<open>None\<close> here; this clock is only used at concrete inputs of that form.
\<close>

fun digits_val :: "string \<Rightarrow> nat \<Rightarrow> nat option" where
  "digits_val [] acc = Some acc"
| "digits_val (c # cs) acc =
     (if is_digit c then digits_val cs (10 * acc + (of_char c - 48)) else None)"

definition leap_year :: "int \<Rightarrow> bool" where
  "leap_year y = (y mod 4 = 0 \<and> (y mod 100 \<noteq> 0 \<or> y mod 400 = 0))"

definition days_in_month :: "int \<Rightarrow> int \<Rightarrow> int" where
  "days_in_month y m =
     (if m = 2 then (if leap_year y then 29 else 28)
      else if m = 4 \<or> m = 6 \<or> m = 9 \<or> m = 11 then 30 else 31)"

text \<open>Days from 1970-01-01 to the given civil date of the proleptic Gregorian calendar.\<close>

definition days_from_civil :: "int \<Rightarrow> int \<Rightarrow> int \<Rightarrow> int" where
  "days_from_civil y m d =
     (let y' = (if m \<le> 2 then y - 1 else y);
          era = y' div 400;
          yoe = y' - era * 400;
          doy = (153 * (if 2 < m then m - 3 else m + 9) + 2) div 5 + d - 1;
          doe = yoe * 365 + yoe div 4 - yoe div 100 + doy
      in era * 146097 + doe - 719468)"

definition utc_fields :: "string \<Rightarrow> (nat \<times> nat \<times> nat \<times> nat \<times> nat \<times> nat \<times> nat) option" where
  "utc_fields s =
     (if (length s = 20 \<or> length s = 24)
         \<and> map (\<lambda>i. s ! i) [4, 7, 10, 13, 16] = ''--T::''
         \<and> last s = CHR ''Z''
         \<and> (length s = 20 \<or> s ! 19 = CHR ''.'')
      then
        (case (digits_val (take 4 s) 0, digits_val (take 2 (drop 5 s)) 0,
               digits_val (take 2 (drop 8 s)) 0, digits_val (take 2 (drop 11 s)) 0,
               digits_val (take 2 (drop 14 s)) 0, digits_val (take 2 (drop 17 s)) 0,
               digits_val (take (length s - 21) (drop 20 s)) 0) of
           (Some y, Some mo, Some d, Some h, Some mi, Some sec, Some ms) \<Rightarrow>
             Some (y, mo, d, h, mi, sec, ms)
         | _ \<Rightarrow> None)
      else None)"

definition utc_ms :: "string \<Rightarrow> int option" where
  "utc_ms s =
     (case utc_fields s of
        None \<Rightarrow> None
      | Some (y, mo, d, h, mi, sec, ms) \<Rightarrow>
          if 1 \<le> mo \<and> mo \<le> 12 \<and> 1 \<le> d \<and> int d \<le> days_in_month (int y) (int mo)
             \<and> h \<le> 23 \<and> mi \<le> 59 \<and> sec \<le> 59
          then Some (((days_from_civil (int y) (int mo) (int d) * 24 + int h) * 60 + int mi) * 60000
                     + int sec * 1000 + int ms)
          else None)"

subsection \<open>The refresh\<close>

text \<open>
  \<^verbatim>\<open>toLowerCase\<close> and \<^verbatim>\<open>toUpperCase\<close> on ASCII: the letters map by the two
  alphabets, every other character stays.
\<close>

definition lower_char :: "char \<Rightarrow> char" where
  "lower_char c =
     (case map_of (zip ''ABCDEFGHIJKLMNOPQRSTUVWXYZ'' ''abcdefghijklmnopqrstuvwxyz'') c of
        None \<Rightarrow> c | Some d \<Rightarrow> d)"

definition upper_char :: "char \<Rightarrow> char" where
  "upper_char c =
     (case map_of (zip ''abcdefghijklmnopqrstuvwxyz'' ''ABCDEFGHIJKLMNOPQRSTUVWXYZ'') c of
        None \<Rightarrow> c | Some d \<Rightarrow> d)"

definition toLowerCase :: "string \<Rightarrow> string" where
  "toLowerCase s = map lower_char s"

definition toUpperCase :: "string \<Rightarrow> string" where
  "toUpperCase s = map upper_char s"

definition startsWith :: "string \<Rightarrow> string \<Rightarrow> bool" where
  "startsWith s p = (take (length p) s = p)"

text \<open>\<^verbatim>\<open>v ?? ""\<close> on an optional string.\<close>

fun nullish_empty :: "string option \<Rightarrow> string" where
  "nullish_empty None = []"
| "nullish_empty (Some s) = s"

text \<open>
  The filter predicate:
  \<^verbatim>\<open>printer === printerKey.toLowerCase() && !id.startsWith("TEST#")\<close>.
\<close>

definition keep_order :: "string \<Rightarrow> RawOrder \<Rightarrow> bool" where
  "keep_order printerKey ord =
     (toLowerCase (nullish_empty (printer ord)) = toLowerCase printerKey
      \<and> \<not> startsWith (toUpperCase (order_id ord)) ''TEST#'')"

text \<open>The object literal of \<^verbatim>\<open>filtered.map((o) => ({...}))\<close>.\<close>

definition trim_order :: "RawOrder \<Rightarrow> RawOrder" where
  "trim_order ord =
     \<lparr>order_id = order_id ord,
      name = Some (or_empty (name ord)),
      phone_number = Some (or_empty (phone_number ord)),
      city = Some (or_empty (city ord)),
      bookId = Some (or_empty (bookId ord)),
      bookStyle = Some (or_empty (bookStyle ord)),
      coverPdf = Some (or_empty (coverPdf ord)),
      interiorPdf = Some (or_empty (interiorPdf ord)),
      printer = Some (or_empty (printer ord)),
      label_url = Some (or_empty (label_url ord)),
      print_sent_at = Some (or_empty (print_sent_at ord)),
      zip_code = Some (or_empty (zip_code ord))\<rparr>"

text \<open>
  The component state the refresh writes, and the session values it reads
  (\<^verbatim>\<open>part_001\<close> is the instance with the fixed printer \<^verbatim>\<open>genesis\<close> and no token
  gate).
\<close>

record store =
  orders :: "RawOrder list"
  totalOrders :: int
  loading :: bool

record session =
  printerKey :: string
  token :: string

text \<open>
  \<^verbatim>\<open>typeof json.total === "number" ? json.total : data.length\<close>; a bare array has no
  \<^verbatim>\<open>total\<close>.
\<close>

fun body_total :: "json_body \<Rightarrow> int" where
  "body_total (JObject its (Some t)) = t"
| "body_total json = int (length (body_items json))"

text \<open>
  The two failure exits (\<^verbatim>\<open>!res.ok\<close> and \<^verbatim>\<open>catch\<close>) and the \<^verbatim>\<open>finally\<close>
  block.
\<close>

definition refresh_failed :: "store \<Rightarrow> store" where
  "refresh_failed st = st\<lparr>orders := [], totalOrders := 0, loading := False\<rparr>"

text \<open>
  The refresh on what the request gave. A \<^verbatim>\<open>null\<close> element makes
  \<^verbatim>\<open>o.printer\<close> throw inside \<^verbatim>\<open>data.filter\<close>, which lands in the \<^verbatim>\<open>catch\<close>
  (\<open>those\<close> is \<open>None\<close> there).
\<close>

definition fetchGenesisOrders :: "(string \<Rightarrow> int option) \<Rightarrow> session \<Rightarrow> response \<Rightarrow> store \<Rightarrow> store" where
  "fetchGenesisOrders getTime s resp st =
     (if token s = [] then st\<lparr>orders := [], totalOrders := 0\<rparr>
      else
        (case resp of
           Threw \<Rightarrow> refresh_failed st
         | NotOk status \<Rightarrow> refresh_failed st
         | Ok json \<Rightarrow>
             (case those (body_items json) of
                None \<Rightarrow> refresh_failed st
              | Some data \<Rightarrow>
                  st\<lparr>orders := sort_orders getTime (map trim_order (filter (keep_order (printerKey s)) data)),
                     totalOrders := body_total json,
                     loading := False\<rparr>)))"

section \<open>Properties of the polling loop\<close>

subsection \<open>Assignments to the result object\<close>

lemma props_obj_set:
  "props (obj_set obj k v) =
     (if props obj k = None \<and> k = ''__proto__'' \<and> \<not> null_proto obj then props obj
      else (props obj)(k \<mapsto> v))"
  by (cases v) (auto simp: obj_set_def)

lemma null_proto_obj_set_Some: "null_proto (obj_set obj k (Some s)) = null_proto obj"
  by (simp add: obj_set_def)

lemma null_proto_obj_set_None:
  "null_proto (obj_set obj k None) = (null_proto obj \<or> (props obj k = None \<and> k = ''__proto__''))"
  by (auto simp: obj_set_def)

lemma empty_object_fields: "props empty_object = Map.empty" "null_proto empty_object = False"
  by (simp_all add: empty_object_def)

lemma js_object_eqI:
  "props a = props b \<Longrightarrow> null_proto a = null_proto b \<Longrightarrow> a = (b :: js_object)"
  by simp

lemma truthy_Some: "truthy v \<Longrightarrow> \<exists>s. v = Some s \<and> s \<noteq> []"
  by (cases v) (simp_all add: truthy_def)

lemma init_result_null_proto_mono:
  "null_proto obj \<Longrightarrow> null_proto (init_result ids obj)"
  by (induction ids arbitrary: obj) (simp_all add: null_proto_obj_set_None)

lemma init_result_null_proto:
  "props obj ''__proto__'' = None \<Longrightarrow>
     null_proto (init_result ids obj) = (null_proto obj \<or> ''__proto__'' \<in> set ids)"
proof (induction ids arbitrary: obj)
  case Nil
  then show ?case by simp
next
  case (Cons oid ids)
  show ?case
  proof (cases "null_proto obj")
    case True
    then show ?thesis
      using init_result_null_proto_mono[of "obj_set obj oid None" ids]
      by (simp add: null_proto_obj_set_None)
  next
    case False
    have "props (obj_set obj oid None) ''__proto__'' = None"
      using Cons.prems False by (auto simp: props_obj_set)
    from Cons.IH[OF this] show ?thesis
      using Cons.prems by (auto simp: null_proto_obj_set_None)
  qed
qed

lemma init_result_dom:
  "dom (props (init_result ids obj)) \<subseteq> dom (props obj) \<union> set ids"
proof (induction ids arbitrary: obj)
  case Nil
  then show ?case by simp
next
  case (Cons oid ids)
  have "dom (props (obj_set obj oid None)) \<subseteq> dom (props obj) \<union> {oid}"
    by (auto simp: props_obj_set split: if_splits)
  with Cons.IH[of "obj_set obj oid None"] show ?case by auto
qed

lemma init_result_plain:
  "''__proto__'' \<notin> set ids \<Longrightarrow>
     props (init_result ids obj) = (\<lambda>k. if k \<in> set ids then Some None else props obj k)
     \<and> null_proto (init_result ids obj) = null_proto obj"
  by (induction ids arbitrary: obj)
     (auto simp: props_obj_set null_proto_obj_set_None fun_eq_iff)

lemma init_result_plain_empty:
  assumes "''__proto__'' \<notin> set ids"
  shows "init_result ids empty_object =
      \<lparr>props = (\<lambda>k. if k \<in> set ids then Some None else None), null_proto = False\<rparr>"
proof (rule js_object_eqI)
  show "props (init_result ids empty_object) =
      props \<lparr>props = (\<lambda>k. if k \<in> set ids then Some None else None), null_proto = False\<rparr>"
    using init_result_plain[OF assms, of empty_object]
    by (auto simp: fun_eq_iff empty_object_fields)
  show "null_proto (init_result ids empty_object) =
      null_proto \<lparr>props = (\<lambda>k. if k \<in> set ids then Some None else None), null_proto = False\<rparr>"
    using init_result_plain[OF assms, of empty_object]
    by (simp add: empty_object_fields)
qed

subsection \<open>One attempt\<close>

lemma build_map_listed:
  "m [] = None \<Longrightarrow> build_map ds m k = (case listed ds k of Some v \<Rightarrow> Some v | None \<Rightarrow> m k)"
proof (induction ds arbitrary: m)
  case Nil
  then show ?case by simp
next
  case (Cons d ds)
  show ?case
  proof (cases d)
    case None
    then show ?thesis using Cons by simp
  next
    case (Some r)
    show ?thesis
    proof (cases "order_id r = []")
      case True
      then show ?thesis using Some Cons by (auto split: option.splits)
    next
      case False
      then have "(m(order_id r \<mapsto> label_url r)) [] = None" using Cons.prems by simp
      then have "build_map ds (m(order_id r \<mapsto> label_url r)) k =
          (case listed ds k of Some v \<Rightarrow> Some v | None \<Rightarrow> (m(order_id r \<mapsto> label_url r)) k)"
        by (rule Cons.IH)
      then show ?thesis using Some False Cons.prems
        by (simp split: option.splits)
    qed
  qed
qed

lemma map_get_build_map:
  "truthy (map_get (build_map (body_items json) Map.empty) k) \<longleftrightarrow> reported_label (Ok json) k \<noteq> None"
  "truthy (map_get (build_map (body_items json) Map.empty) k) \<Longrightarrow> map_get (build_map (body_items json) Map.empty) k = reported_label (Ok json) k"
  by (auto simp: build_map_listed map_get_def truthy_def split: option.splits)

lemma scan_targets_null_proto:
  "null_proto (fst (scan_targets m ids (r, b))) = null_proto r"
proof (induction ids arbitrary: r b)
  case Nil
  then show ?case by simp
next
  case (Cons oid ids)
  show ?case
  proof (cases "truthy (map_get m oid)")
    case True
    then obtain s where "map_get m oid = Some s" using truthy_Some by blast
    then show ?thesis using True Cons.IH[of "obj_set r oid (Some s)" b]
      by (simp add: null_proto_obj_set_Some)
  next
    case False
    then show ?thesis using Cons.IH[of r False] by simp
  qed
qed

lemma scan_targets_props:
  "props (fst (scan_targets m ids (r, b))) k =
     (if k \<in> set ids \<and> truthy (map_get m k)
         \<and> \<not> (props r k = None \<and> k = ''__proto__'' \<and> \<not> null_proto r)
      then Some (map_get m k) else props r k)"
proof (induction ids arbitrary: r b)
  case Nil
  then show ?case by simp
next
  case (Cons oid ids)
  show ?case
  proof (cases "truthy (map_get m oid)")
    case False
    then show ?thesis using Cons.IH[of r False] by auto
  next
    case True
    then obtain s where s: "map_get m oid = Some s" using truthy_Some by blast
    let ?r = "obj_set r oid (Some s)"
    have np: "null_proto ?r = null_proto r" by (rule null_proto_obj_set_Some)
    have pr: "props ?r =
        (if props r oid = None \<and> oid = ''__proto__'' \<and> \<not> null_proto r then props r
         else (props r)(oid \<mapsto> Some s))"
      by (rule props_obj_set)
    have "props (fst (scan_targets m (oid # ids) (r, b))) k = props (fst (scan_targets m ids (?r, b))) k"
      using True s by simp
    also have "\<dots> = (if k \<in> set ids \<and> truthy (map_get m k)
         \<and> \<not> (props ?r k = None \<and> k = ''__proto__'' \<and> \<not> null_proto ?r)
      then Some (map_get m k) else props ?r k)"
      by (rule Cons.IH)
    also have "\<dots> = (if k \<in> set (oid # ids) \<and> truthy (map_get m k)
         \<and> \<not> (props r k = None \<and> k = ''__proto__'' \<and> \<not> null_proto r)
      then Some (map_get m k) else props r k)"
      using s True by (auto simp: np pr)
    finally show ?thesis .
  qed
qed

lemma scan_targets_snd:
  "snd (scan_targets m ids (r, b)) = (b \<and> (\<forall>k\<in>set ids. truthy (map_get m k)))"
  by (induction ids arbitrary: r b) auto

lemma poll_attempt_snd: "snd (poll_attempt ids resp r) = reports_all ids resp"
  by (cases resp) (auto simp: scan_targets_snd map_get_build_map list_all_iff)

lemma poll_attempt_null_proto: "null_proto (fst (poll_attempt ids resp r)) = null_proto r"
  by (cases resp) (simp_all add: scan_targets_null_proto)

lemma poll_attempt_props:
  "props (fst (poll_attempt ids resp r)) k =
     (if k \<in> set ids \<and> reported_label resp k \<noteq> None
         \<and> \<not> (props r k = None \<and> k = ''__proto__'' \<and> \<not> null_proto r)
      then Some (reported_label resp k) else props r k)"
proof (cases resp)
  case (Ok json)
  then show ?thesis
    by (auto simp: scan_targets_props map_get_build_map simp del: reported_label.simps)
qed auto

lemma poll_loop_done:
  "\<not> a < n \<Longrightarrow> poll_loop ids iv n L a r = (r, [])"
  by (simp add: poll_loop.simps)

lemma poll_loop_exit:
  "a < n \<Longrightarrow> reports_all ids (L a) \<Longrightarrow>
     poll_loop ids iv n L a r = (fst (poll_attempt ids (L a) r), [Poll a])"
  using poll_attempt_snd[of ids "L a" r]
  by (subst poll_loop.simps) (auto split: prod.splits bool.splits)

lemma poll_loop_step:
  "a < n \<Longrightarrow> \<not> reports_all ids (L a) \<Longrightarrow>
     poll_loop ids iv n L a r =
       (fst (poll_loop ids iv n L (Suc a) (fst (poll_attempt ids (L a) r))),
        Poll a # Delay iv # snd (poll_loop ids iv n L (Suc a) (fst (poll_attempt ids (L a) r))))"
  using poll_attempt_snd[of ids "L a" r]
  by (subst poll_loop.simps) (auto split: prod.splits bool.splits)

lemma poll_attempt_dom:
  "set ids \<subseteq> dom (props r) \<Longrightarrow> dom (props (fst (poll_attempt ids resp r))) = dom (props r)"
  by (auto simp: poll_attempt_props split: if_splits)

lemma poll_loop_dom:
  "set ids \<subseteq> dom (props r) \<Longrightarrow> dom (props (fst (poll_loop ids iv n L a r))) = dom (props r)"
proof (induction "n - a" arbitrary: a r)
  case 0
  then show ?case by (simp add: poll_loop_done)
next
  case (Suc d)
  then have lt: "a < n" and d: "d = n - Suc a" by auto
  have keep: "dom (props (fst (poll_attempt ids (L a) r))) = dom (props r)"
    using Suc.prems by (rule poll_attempt_dom)
  show ?case
  proof (cases "reports_all ids (L a)")
    case True
    then show ?thesis using lt keep by (simp add: poll_loop_exit)
  next
    case False
    have "dom (props (fst (poll_loop ids iv n L (Suc a) (fst (poll_attempt ids (L a) r))))) =
          dom (props (fst (poll_attempt ids (L a) r)))"
      using d Suc.prems keep by (intro Suc.hyps(1)) auto
    then show ?thesis using lt False keep by (simp add: poll_loop_step)
  qed
qed

lemma poll_loop_null_proto:
  "null_proto (fst (poll_loop ids iv n L a r)) = null_proto r"
proof (induction "n - a" arbitrary: a r)
  case 0
  then show ?case by (simp add: poll_loop_done)
next
  case (Suc d)
  then have lt: "a < n" and d: "d = n - Suc a" by auto
  show ?case
  proof (cases "reports_all ids (L a)")
    case True
    then show ?thesis using lt by (simp add: poll_loop_exit poll_attempt_null_proto)
  next
    case False
    have "null_proto (fst (poll_loop ids iv n L (Suc a) (fst (poll_attempt ids (L a) r)))) =
          null_proto (fst (poll_attempt ids (L a) r))"
      using d by (intro Suc.hyps(1)) auto
    then show ?thesis using lt False by (simp add: poll_loop_step poll_attempt_null_proto)
  qed
qed

subsection \<open>The keys of the result\<close>

text \<open>
  When \<^verbatim>\<open>__proto__\<close> is not among the targets, every assignment creates or
  overwrites a property, and the keys of the returned object are the targets.
\<close>

lemma pollForLabels_keys_plain:
  "''__proto__'' \<notin> set orderIds \<Longrightarrow>
     dom (props (fst (pollForLabels orderIds pollIntervalMs maxAttempts listing))) = set orderIds"
proof -
  assume plain: "''__proto__'' \<notin> set orderIds"
  have init: "dom (props (init_result orderIds empty_object)) = set orderIds"
    by (auto simp: init_result_plain_empty[OF plain] dom_def split: if_splits)
  then have "set orderIds \<subseteq> dom (props (init_result orderIds empty_object))" by simp
  from poll_loop_dom[OF this] init show ?thesis
    by (simp add: pollForLabels_def)
qed

text \<open>
  C1 on the code. The specification asks for one entry per target in every run. The
  initialisation \<^verbatim>\<open>result[id] = null\<close> on the plain object \<^verbatim>\<open>{}\<close> creates that entry
  for every identifier but \<^verbatim>\<open>__proto__\<close>, for which it replaces the prototype
  instead. The run for the targets \<^verbatim>\<open>__proto__\<close> and \<^verbatim>\<open>A100\<close> with a listing that
  never reports a label returns an object whose only key is \<^verbatim>\<open>A100\<close>; the read of
  \<^verbatim>\<open>__proto__\<close> gives \<^verbatim>\<open>undefined\<close>.
\<close>

theorem pollForLabels_keys_lose_proto:
  "dom (props (fst (pollForLabels [''__proto__'', ''A100''] 3000 2 (\<lambda>a. Ok (JArray []))))) = {''A100''}
   \<and> obj_get (fst (pollForLabels [''__proto__'', ''A100''] 3000 2 (\<lambda>a. Ok (JArray [])))) ''__proto__''
       = Undefined"
proof -
  let ?ids = "[''__proto__'', ''A100'']"
  let ?L = "\<lambda>a::nat. Ok (JArray [])"
  let ?r = "\<lparr>props = [''A100'' \<mapsto> None], null_proto = True\<rparr>"
  have init: "init_result ?ids empty_object = ?r"
    by (simp add: empty_object_def obj_set_def)
  have att: "poll_attempt ?ids (Ok (JArray [])) ?r = (?r, False)"
    by (simp add: truthy_def map_get_def)
  have no: "\<not> reports_all ?ids (?L a)" for a
    by simp
  have "poll_loop ?ids 3000 2 ?L 0 ?r = (?r, [Poll 0, Delay 3000, Poll 1, Delay 3000])"
    using no att by (simp add: poll_loop_step poll_loop_done numeral_2_eq_2)
  then have "fst (pollForLabels ?ids 3000 2 ?L) = ?r"
    by (simp only: pollForLabels_def init fst_conv)
  then show ?thesis
    by (simp add: obj_get_def)
qed

subsection \<open>The events of a run\<close>

lemma reports_all_iff:
  "reports_all ids resp \<longleftrightarrow> (\<exists>json. resp = Ok json) \<and> (\<forall>k\<in>set ids. reported_label resp k \<noteq> None)"
  by (cases resp) (auto simp: list_all_iff)

lemma rounds_Suc: "rounds iv (Suc n) = rounds iv n @ [Poll n, Delay iv]"
  by (simp add: rounds_def)

lemma poll_loop_events_exhausted:
  "\<forall>b. a \<le> b \<and> b < n \<longrightarrow> \<not> reports_all ids (L b) \<Longrightarrow>
     snd (poll_loop ids iv n L a r) = concat (map (\<lambda>b. [Poll b, Delay iv]) [a..<n])"
proof (induction "n - a" arbitrary: a r)
  case 0
  then show ?case by (simp add: poll_loop_done)
next
  case (Suc d)
  then have lt: "a < n" and d: "d = n - Suc a" by auto
  have no: "\<not> reports_all ids (L a)" using Suc.prems lt by simp
  have "snd (poll_loop ids iv n L (Suc a) (fst (poll_attempt ids (L a) r))) =
        concat (map (\<lambda>b. [Poll b, Delay iv]) [Suc a..<n])"
    using d Suc.prems by (intro Suc.hyps(1)) auto
  then show ?case using lt no by (simp add: poll_loop_step upt_conv_Cons)
qed

lemma poll_loop_events_exit:
  "a \<le> e \<Longrightarrow> e < n \<Longrightarrow> reports_all ids (L e) \<Longrightarrow>
   \<forall>b. a \<le> b \<and> b < e \<longrightarrow> \<not> reports_all ids (L b) \<Longrightarrow>
     snd (poll_loop ids iv n L a r) = concat (map (\<lambda>b. [Poll b, Delay iv]) [a..<e]) @ [Poll e]"
proof (induction "e - a" arbitrary: a r)
  case 0
  then have "a = e" by simp
  then show ?case using 0 by (simp add: poll_loop_exit)
next
  case (Suc d)
  then have lt: "a < e" and d: "d = e - Suc a" by auto
  have no: "\<not> reports_all ids (L a)" using Suc.prems lt by simp
  have "snd (poll_loop ids iv n L (Suc a) (fst (poll_attempt ids (L a) r))) =
        concat (map (\<lambda>b. [Poll b, Delay iv]) [Suc a..<e]) @ [Poll e]"
    using d Suc.prems lt by (intro Suc.hyps(1)) auto
  then show ?case using lt no Suc.prems by (simp add: poll_loop_step upt_conv_Cons)
qed

lemma poll_loop_unreported:
  "\<forall>b. a \<le> b \<and> b < n \<longrightarrow> (\<forall>k\<in>set ids. reported_label (L b) k = None) \<Longrightarrow>
     fst (poll_loop ids iv n L a r) = r"
proof (induction "n - a" arbitrary: a)
  case 0
  then show ?case by (simp add: poll_loop_done)
next
  case (Suc d)
  then have lt: "a < n" and d: "d = n - Suc a" by auto
  have "props (fst (poll_attempt ids (L a) r)) = props r"
    using Suc.prems lt by (auto simp: poll_attempt_props fun_eq_iff)
  then have same: "fst (poll_attempt ids (L a) r) = r"
    by (intro js_object_eqI) (simp_all add: poll_attempt_null_proto)
  have rest: "fst (poll_loop ids iv n L (Suc a) r) = r"
    using d Suc.prems by (intro Suc.hyps(1)) auto
  show ?case
  proof (cases "reports_all ids (L a)")
    case True
    then show ?thesis using lt same by (simp add: poll_loop_exit)
  next
    case False
    then show ?thesis using lt same rest by (simp add: poll_loop_step)
  qed
qed

lemma poll_loop_keeps_found:
  "props r k = Some (Some l) \<Longrightarrow> \<exists>l'. props (fst (poll_loop ids iv n L a r)) k = Some (Some l')"
proof (induction "n - a" arbitrary: a r l)
  case 0
  then show ?case by (simp add: poll_loop_done)
next
  case (Suc d)
  then have lt: "a < n" and d: "d = n - Suc a" by auto
  have "\<exists>l1. props (fst (poll_attempt ids (L a) r)) k = Some (Some l1)"
    using Suc.prems by (cases "reported_label (L a) k") (simp_all add: poll_attempt_props)
  then obtain l1 where l1: "props (fst (poll_attempt ids (L a) r)) k = Some (Some l1)" ..
  show ?case
  proof (cases "reports_all ids (L a)")
    case True
    then show ?thesis using lt l1 by (simp add: poll_loop_exit)
  next
    case False
    have "\<exists>l'. props (fst (poll_loop ids iv n L (Suc a) (fst (poll_attempt ids (L a) r)))) k = Some (Some l')"
      using d l1 by (intro Suc.hyps(1)) auto
    then show ?thesis using lt False by (simp add: poll_loop_step)
  qed
qed

lemma poll_count_rounds: "poll_count (rounds iv n) = n" "delay_count (rounds iv n) = n"
  by (induction n) (simp_all add: rounds_Suc poll_count_def delay_count_def, simp_all add: rounds_def)

lemma poll_loop_delay_bound:
  "delay_count (snd (poll_loop ids iv n L a r)) \<le> n - a"
proof (induction "n - a" arbitrary: a r)
  case 0
  then show ?case by (simp add: poll_loop_done delay_count_def)
next
  case (Suc d)
  then have lt: "a < n" and d: "d = n - Suc a" by auto
  show ?case
  proof (cases "reports_all ids (L a)")
    case True
    then show ?thesis using lt by (simp add: poll_loop_exit delay_count_def)
  next
    case False
    have "delay_count (snd (poll_loop ids iv n L (Suc a) (fst (poll_attempt ids (L a) r)))) \<le> n - Suc a"
      using d by (intro Suc.hyps(1)) auto
    then show ?thesis using lt False by (simp add: poll_loop_step delay_count_def)
  qed
qed

subsection \<open>Early exit\<close>

text \<open>
  C2. A run over a non-empty list of targets with at least one attempt: if the response
  of the first attempt reports a non-empty label for every target, the run makes exactly
  one request, starts no timer, and returns the object whose own properties give each
  target the label that response reports for it, and nothing else. (Its prototype is
  \<^verbatim>\<open>null\<close> exactly when \<^verbatim>\<open>__proto__\<close> is among the targets.)
\<close>

theorem pollForLabels_early_exit:
  assumes "0 < maxAttempts"
    and "\<forall>k\<in>set orderIds. reported_label (listing 0) k \<noteq> None"
    and "orderIds \<noteq> []"
  shows "pollForLabels orderIds pollIntervalMs maxAttempts listing =
           (\<lparr>props = (\<lambda>k. if k \<in> set orderIds then Some (reported_label (listing 0) k) else None),
             null_proto = (''__proto__'' \<in> set orderIds)\<rparr>, [Poll 0])"
proof -
  let ?r0 = "init_result orderIds empty_object"
  have all: "reports_all orderIds (listing 0)"
    using assms(2,3) by (cases orderIds; cases "listing 0") (auto simp: list_all_iff)
  have np: "null_proto ?r0 = (''__proto__'' \<in> set orderIds)"
    using init_result_null_proto[of empty_object orderIds] by (simp add: empty_object_fields)
  have out: "props ?r0 k = None" if "k \<notin> set orderIds" for k
    using that init_result_dom[of orderIds empty_object] by (auto simp: empty_object_fields)
  have "props (fst (poll_attempt orderIds (listing 0) ?r0)) =
      (\<lambda>k. if k \<in> set orderIds then Some (reported_label (listing 0) k) else None)"
    using assms(2) np out by (auto simp: poll_attempt_props fun_eq_iff)
  moreover have "null_proto (fst (poll_attempt orderIds (listing 0) ?r0)) = (''__proto__'' \<in> set orderIds)"
    using np by (simp add: poll_attempt_null_proto)
  ultimately have "fst (poll_attempt orderIds (listing 0) ?r0) =
      \<lparr>props = (\<lambda>k. if k \<in> set orderIds then Some (reported_label (listing 0) k) else None),
       null_proto = (''__proto__'' \<in> set orderIds)\<rparr>"
    by (intro js_object_eqI) simp_all
  then show ?thesis
    using assms(1) all by (simp add: pollForLabels_def poll_loop_exit)
qed

theorem pollForLabels_early_exit_witness:
  "snd (pollForLabels [''A100'', ''A101''] 2000 3
      (\<lambda>a. Ok (JArray [Some ((bare_order ''A100'')\<lparr>label_url := Some ''https://cdn/labels/A100.pdf''\<rparr>),
                          Some ((bare_order ''A101'')\<lparr>label_url := Some ''https://cdn/labels/A101.pdf''\<rparr>)]))) = [Poll 0]
   \<and> props (fst (pollForLabels [''A100'', ''A101''] 2000 3
      (\<lambda>a. Ok (JArray [Some ((bare_order ''A100'')\<lparr>label_url := Some ''https://cdn/labels/A100.pdf''\<rparr>),
                          Some ((bare_order ''A101'')\<lparr>label_url := Some ''https://cdn/labels/A101.pdf''\<rparr>)])))) ''A101''
       = Some (Some ''https://cdn/labels/A101.pdf'')"
  using pollForLabels_early_exit[of 3 "[''A100'', ''A101'']"
      "\<lambda>a. Ok (JArray [Some ((bare_order ''A100'')\<lparr>label_url := Some ''https://cdn/labels/A100.pdf''\<rparr>),
                          Some ((bare_order ''A101'')\<lparr>label_url := Some ''https://cdn/labels/A101.pdf''\<rparr>)])" 2000]
  by (simp add: bare_order_def)

subsection \<open>Exhausted attempts\<close>

text \<open>
  When \<^verbatim>\<open>__proto__\<close> is not among the targets, a run in which no label is ever
  reported makes \<open>maxAttempts\<close> requests and returns \<^verbatim>\<open>null\<close> for every target.
\<close>

lemma pollForLabels_exhausted_plain:
  assumes "orderIds \<noteq> []" and "''__proto__'' \<notin> set orderIds"
    and "\<forall>a<maxAttempts. \<forall>k\<in>set orderIds. reported_label (listing a) k = None"
  shows "pollForLabels orderIds pollIntervalMs maxAttempts listing =
           (\<lparr>props = (\<lambda>k. if k \<in> set orderIds then Some None else None), null_proto = False\<rparr>,
            rounds pollIntervalMs maxAttempts)
     \<and> poll_count (snd (pollForLabels orderIds pollIntervalMs maxAttempts listing)) = maxAttempts"
proof -
  have no: "\<forall>b. 0 \<le> b \<and> b < maxAttempts \<longrightarrow> \<not> reports_all orderIds (listing b)"
    using assms(1,3) by (cases orderIds) (auto simp: reports_all_iff)
  have ev: "snd (pollForLabels orderIds pollIntervalMs maxAttempts listing) = rounds pollIntervalMs maxAttempts"
    unfolding pollForLabels_def rounds_def using no by (rule poll_loop_events_exhausted)
  have "init_result orderIds empty_object =
      \<lparr>props = (\<lambda>k. if k \<in> set orderIds then Some None else None), null_proto = False\<rparr>"
    using assms(2) by (rule init_result_plain_empty)
  moreover have "fst (pollForLabels orderIds pollIntervalMs maxAttempts listing) =
      init_result orderIds empty_object"
    unfolding pollForLabels_def using assms(3)
    by (intro poll_loop_unreported) simp
  ultimately show ?thesis using ev by (simp add: prod_eq_iff poll_count_rounds)
qed

text \<open>
  C3 on the code. The specification asks that a run in which no label is ever reported makes
  \<open>maxAttempts\<close> requests and returns \<^verbatim>\<open>null\<close> for every target. The run for the one
  target \<^verbatim>\<open>__proto__\<close> with three attempts that all fail makes the three requests, but
  the object it returns has no property at all: the target has no entry, and reading it
  gives \<^verbatim>\<open>undefined\<close>, not \<^verbatim>\<open>null\<close>.
\<close>

theorem pollForLabels_exhausted_loses_proto:
  "pollForLabels [''__proto__''] 2000 3 (\<lambda>a. NotOk 502)
     = (\<lparr>props = Map.empty, null_proto = True\<rparr>,
        [Poll 0, Delay 2000, Poll 1, Delay 2000, Poll 2, Delay 2000])
   \<and> obj_get (fst (pollForLabels [''__proto__''] 2000 3 (\<lambda>a. NotOk 502))) ''__proto__'' = Undefined"
proof -
  let ?r = "\<lparr>props = Map.empty, null_proto = True\<rparr>"
  have init: "init_result [''__proto__''] empty_object = ?r"
    by (simp add: empty_object_def obj_set_def)
  have "poll_loop [''__proto__''] 2000 3 (\<lambda>a. NotOk 502) 0 ?r
      = (?r, [Poll 0, Delay 2000, Poll 1, Delay 2000, Poll 2, Delay 2000])"
    by (simp add: poll_loop_step poll_loop_done numeral_3_eq_3)
  then have "pollForLabels [''__proto__''] 2000 3 (\<lambda>a. NotOk 502)
      = (?r, [Poll 0, Delay 2000, Poll 1, Delay 2000, Poll 2, Delay 2000])"
    by (simp only: pollForLabels_def init)
  then show ?thesis
    by (simp add: obj_get_def)
qed

subsection \<open>When the timer runs\<close>

text \<open>
  C4, as the code has it. The timer of \<open>pollIntervalMs\<close> follows every attempt
  that does not return early, the last one included: a run in which no attempt finds
  every target consists of \<open>maxAttempts\<close> rounds of request and timer; a run whose
  first attempt to find every target is \<open>e\<close> consists of \<open>e\<close> such rounds and one
  more request, with no timer after it. In every run the timer is started at most
  \<open>maxAttempts\<close> times, so the time spent in timers is at most \<open>maxAttempts\<close> times
  \<open>pollIntervalMs\<close>.
\<close>

theorem pollForLabels_delays:
  "((\<forall>a<maxAttempts. \<not> reports_all orderIds (listing a)) \<longrightarrow>
      snd (pollForLabels orderIds pollIntervalMs maxAttempts listing) = rounds pollIntervalMs maxAttempts)
   \<and> (\<forall>e<maxAttempts. reports_all orderIds (listing e) \<and> (\<forall>b<e. \<not> reports_all orderIds (listing b)) \<longrightarrow>
      snd (pollForLabels orderIds pollIntervalMs maxAttempts listing) = rounds pollIntervalMs e @ [Poll e])
   \<and> delay_count (snd (pollForLabels orderIds pollIntervalMs maxAttempts listing)) \<le> maxAttempts"
proof (intro conjI impI allI)
  assume "\<forall>a<maxAttempts. \<not> reports_all orderIds (listing a)"
  then show "snd (pollForLabels orderIds pollIntervalMs maxAttempts listing) = rounds pollIntervalMs maxAttempts"
    unfolding pollForLabels_def rounds_def by (intro poll_loop_events_exhausted) simp
next
  fix e
  assume "e < maxAttempts"
    and "reports_all orderIds (listing e) \<and> (\<forall>b<e. \<not> reports_all orderIds (listing b))"
  then show "snd (pollForLabels orderIds pollIntervalMs maxAttempts listing) = rounds pollIntervalMs e @ [Poll e]"
    unfolding pollForLabels_def rounds_def by (intro poll_loop_events_exit) simp_all
next
  show "delay_count (snd (pollForLabels orderIds pollIntervalMs maxAttempts listing)) \<le> maxAttempts"
    unfolding pollForLabels_def using poll_loop_delay_bound[of orderIds pollIntervalMs maxAttempts listing 0] by simp
qed

theorem pollForLabels_delays_witness:
  "snd (pollForLabels [''A100'', ''A101''] 2000 3
      (\<lambda>a. if a = 0 then Ok (JArray [])
            else if a = 1 then Ok (JArray [Some ((bare_order ''A100'')\<lparr>label_url := Some ''https://cdn/labels/A100.pdf''\<rparr>)])
            else Ok (JArray [Some ((bare_order ''A100'')\<lparr>label_url := Some ''https://cdn/labels/A100.pdf''\<rparr>),
                             Some ((bare_order ''A101'')\<lparr>label_url := Some ''https://cdn/labels/A101.pdf''\<rparr>)])))
     = [Poll 0, Delay 2000, Poll 1, Delay 2000, Poll 2]
   \<and> snd (pollForLabels [''A100'', ''A101''] 2000 3 (\<lambda>a. NotOk 502))
     = [Poll 0, Delay 2000, Poll 1, Delay 2000, Poll 2, Delay 2000]"
proof -
  let ?ids = "[''A100'', ''A101'']"
  let ?L = "\<lambda>a::nat. if a = 0 then Ok (JArray [])
            else if a = 1 then Ok (JArray [Some ((bare_order ''A100'')\<lparr>label_url := Some ''https://cdn/labels/A100.pdf''\<rparr>)])
            else Ok (JArray [Some ((bare_order ''A100'')\<lparr>label_url := Some ''https://cdn/labels/A100.pdf''\<rparr>),
                             Some ((bare_order ''A101'')\<lparr>label_url := Some ''https://cdn/labels/A101.pdf''\<rparr>)])"
  have no0: "\<not> reports_all ?ids (?L 0)" and no1: "\<not> reports_all ?ids (?L 1)"
    and yes2: "reports_all ?ids (?L 2)"
    by (simp_all add: bare_order_def)
  have "\<forall>b<2. \<not> reports_all ?ids (?L b)"
    using no0 no1 by (auto simp: less_Suc_eq numeral_2_eq_2)
  with yes2 have "snd (pollForLabels ?ids 2000 3 ?L) = rounds 2000 2 @ [Poll 2]"
    using pollForLabels_delays[of 3 ?ids ?L 2000] by simp
  moreover have "snd (pollForLabels ?ids 2000 3 (\<lambda>a. NotOk 502)) = rounds 2000 3"
    using pollForLabels_delays[of 3 ?ids "\<lambda>a. NotOk 502" 2000] by simp
  ultimately show ?thesis
    by (simp add: rounds_def numeral_2_eq_2 numeral_3_eq_3)
qed

text \<open>
  The run that \<^verbatim>\<open>shipNow\<close> of \<^verbatim>\<open>part_002\<close> starts (3000 ms, 2 attempts), with
  a label that never appears: the timer is started again after the second and last
  request, so a timer does run when no attempt remains.
\<close>

theorem pollForLabels_delay_after_final_attempt:
  "snd (pollForLabels [''A100''] 3000 2 (\<lambda>a. Ok (JArray [])))
     = [Poll 0, Delay 3000, Poll 1, Delay 3000]"
  by (simp add: pollForLabels_def poll_loop_step poll_loop_done numeral_2_eq_2)

subsection \<open>A failed request\<close>

text \<open>
  C5. An attempt whose request throws or gives a non-OK response, at any point of a run
  (any attempt below \<open>maxAttempts\<close>, any result object so far): the attempt leaves the
  result object as it is and does not return; the loop goes on to the timer and to
  attempt \<open>attempt + 1\<close> with the same object; and a target that has a label in the
  object still has one in the object the run returns.
\<close>

theorem poll_failure_transient:
  assumes "attempt < maxAttempts"
    and "listing attempt = Threw \<or> listing attempt = NotOk status"
  shows "poll_attempt orderIds (listing attempt) result = (result, False)
     \<and> poll_loop orderIds pollIntervalMs maxAttempts listing attempt result =
         (fst (poll_loop orderIds pollIntervalMs maxAttempts listing (Suc attempt) result),
          Poll attempt # Delay pollIntervalMs #
            snd (poll_loop orderIds pollIntervalMs maxAttempts listing (Suc attempt) result))
     \<and> (\<forall>k l. props result k = Some (Some l) \<longrightarrow>
          (\<exists>l'. props (fst (poll_loop orderIds pollIntervalMs maxAttempts listing attempt result)) k
                  = Some (Some l')))"
proof -
  have att: "poll_attempt orderIds (listing attempt) result = (result, False)"
    using assms(2) by auto
  have "\<not> reports_all orderIds (listing attempt)"
    using assms(2) by auto
  then have "poll_loop orderIds pollIntervalMs maxAttempts listing attempt result =
         (fst (poll_loop orderIds pollIntervalMs maxAttempts listing (Suc attempt) result),
          Poll attempt # Delay pollIntervalMs #
            snd (poll_loop orderIds pollIntervalMs maxAttempts listing (Suc attempt) result))"
    using assms(1) att by (simp add: poll_loop_step)
  then show ?thesis using att poll_loop_keeps_found by blast
qed

theorem poll_failure_transient_witness:
  "poll_attempt [''A100'', ''A101''] Threw
       \<lparr>props = [''A100'' \<mapsto> Some ''https://cdn/labels/A100.pdf'', ''A101'' \<mapsto> None], null_proto = False\<rparr>
     = (\<lparr>props = [''A100'' \<mapsto> Some ''https://cdn/labels/A100.pdf'', ''A101'' \<mapsto> None], null_proto = False\<rparr>, False)
   \<and> snd (poll_loop [''A100'', ''A101''] 2000 3
        (\<lambda>a. if a = 1 then Threw
              else Ok (JArray [Some ((bare_order ''A101'')\<lparr>label_url := Some ''https://cdn/labels/A101.pdf''\<rparr>)]))
        1 \<lparr>props = [''A100'' \<mapsto> Some ''https://cdn/labels/A100.pdf'', ''A101'' \<mapsto> None], null_proto = False\<rparr>)
     = [Poll 1, Delay 2000, Poll 2, Delay 2000]
   \<and> props (fst (poll_loop [''A100'', ''A101''] 2000 3
        (\<lambda>a. if a = 1 then Threw
              else Ok (JArray [Some ((bare_order ''A101'')\<lparr>label_url := Some ''https://cdn/labels/A101.pdf''\<rparr>)]))
        1 \<lparr>props = [''A100'' \<mapsto> Some ''https://cdn/labels/A100.pdf'', ''A101'' \<mapsto> None], null_proto = False\<rparr>)) ''A100''
     = Some (Some ''https://cdn/labels/A100.pdf'')"
proof -
  let ?ids = "[''A100'', ''A101'']"
  let ?L = "\<lambda>a::nat. if a = 1 then Threw
              else Ok (JArray [Some ((bare_order ''A101'')\<lparr>label_url := Some ''https://cdn/labels/A101.pdf''\<rparr>)])"
  let ?r = "\<lparr>props = [''A100'' \<mapsto> Some ''https://cdn/labels/A100.pdf'', ''A101'' \<mapsto> None], null_proto = False\<rparr>"
  have no2: "\<not> reports_all ?ids (?L (Suc 1))"
    by (simp add: bare_order_def)
  have rest: "poll_loop ?ids 2000 3 ?L (Suc 1) ?r =
      (fst (poll_attempt ?ids (?L (Suc 1)) ?r), [Poll 2, Delay 2000])"
    using no2 by (simp add: poll_loop_step poll_loop_done numeral_3_eq_3)
  have a100: "props (fst (poll_attempt ?ids (?L (Suc 1)) ?r)) ''A100'' = Some (Some ''https://cdn/labels/A100.pdf'')"
    by (simp add: poll_attempt_props bare_order_def del: poll_attempt.simps)
  show ?thesis
    using poll_failure_transient[where attempt = 1 and maxAttempts = 3 and listing = ?L and status = 0
        and orderIds = ?ids and result = ?r and pollIntervalMs = 2000] rest a100
    by simp
qed

section \<open>Properties of the completion patch\<close>

lemma resolved_iff: "resolved res k \<longleftrightarrow> (\<exists>l. props res k = Some (Some l) \<and> l \<noteq> [])"
  by (auto simp: resolved_def split: option.splits)

text \<open>
  Where no read falls through to \<^verbatim>\<open>Object.prototype\<close>, the patch gives each record
  back with at most its \<^verbatim>\<open>label_url\<close> replaced, by the label its identifier
  resolved to.
\<close>

lemma patch_order_plain:
  "\<not> inherited res (order_id ord) \<Longrightarrow>
     patch_order res ord =
       Order (if resolved res (order_id ord)
              then ord\<lparr>label_url := map_get (props res) (order_id ord)\<rparr> else ord)"
  by (auto simp: patch_order_def inherited_def resolved_def obj_get_def js_or_def map_get_def
      split: option.splits)

lemma apply_patch_plain:
  "\<forall>ord\<in>set prev. \<not> inherited res (order_id ord) \<Longrightarrow>
     apply_patch res prev =
       map (\<lambda>ord. Order (if resolved res (order_id ord)
                         then ord\<lparr>label_url := map_get (props res) (order_id ord)\<rparr> else ord)) prev"
  by (simp add: apply_patch_def patch_order_plain)

text \<open>
  C6 on the code. The specification asks that a record whose identifier did not resolve, or is
  not in the result map, comes out of the patch unchanged. The guard reads
  \<^verbatim>\<open>pollResult[o.order_id]\<close> on a plain object, so an identifier that names a member
  of \<^verbatim>\<open>Object.prototype\<close> passes it without being in the map. After the run for the
  target \<^verbatim>\<open>A100\<close> that finds nothing, the result has the one entry \<^verbatim>\<open>A100: null\<close>;
  the patch leaves the record \<^verbatim>\<open>A100\<close> as it is and puts the function
  \<^verbatim>\<open>Object.prototype.constructor\<close> into the \<^verbatim>\<open>label_url\<close> of the record whose
  identifier is \<^verbatim>\<open>constructor\<close>.
\<close>

theorem apply_patch_reads_inherited:
  "fst (pollForLabels [''A100''] 3000 2 (\<lambda>a. Ok (JArray [])))
     = \<lparr>props = [''A100'' \<mapsto> None], null_proto = False\<rparr>
   \<and> apply_patch (fst (pollForLabels [''A100''] 3000 2 (\<lambda>a. Ok (JArray []))))
       [bare_order ''A100'', (bare_order ''constructor'')\<lparr>label_url := Some ''https://cdn/labels/old.pdf''\<rparr>]
     = [Order (bare_order ''A100''),
        OrderWithMember ((bare_order ''constructor'')\<lparr>label_url := Some ''https://cdn/labels/old.pdf''\<rparr>)
          ''constructor'']"
proof -
  let ?r = "\<lparr>props = [''A100'' \<mapsto> None], null_proto = False\<rparr>"
  have init: "init_result [''A100''] empty_object = ?r"
    by (simp add: empty_object_def obj_set_def)
  have att: "poll_attempt [''A100''] (Ok (JArray [])) ?r = (?r, False)"
    by (simp add: truthy_def map_get_def)
  have "poll_loop [''A100''] 3000 2 (\<lambda>a. Ok (JArray [])) 0 ?r
      = (?r, [Poll 0, Delay 3000, Poll 1, Delay 3000])"
    using att by (simp add: poll_loop_step poll_loop_done numeral_2_eq_2)
  then have run: "fst (pollForLabels [''A100''] 3000 2 (\<lambda>a. Ok (JArray []))) = ?r"
    by (simp only: pollForLabels_def init fst_conv)
  have "apply_patch ?r
       [bare_order ''A100'', (bare_order ''constructor'')\<lparr>label_url := Some ''https://cdn/labels/old.pdf''\<rparr>]
     = [Order (bare_order ''A100''),
        OrderWithMember ((bare_order ''constructor'')\<lparr>label_url := Some ''https://cdn/labels/old.pdf''\<rparr>)
          ''constructor'']"
    by (simp add: apply_patch_def patch_order_def obj_get_def object_prototype_names_def js_or_def
        bare_order_def)
  with run show ?thesis by simp
qed

section \<open>Properties of the refresh\<close>

lemma those_None_iff: "those xs = None \<longleftrightarrow> None \<in> set xs"
  by (induction xs) (auto split: option.splits)

text \<open>
  C9. A refresh whose request throws, or gives a non-OK response, or whose body cannot
  be read (a \<^verbatim>\<open>null\<close> element) ends with no records in the store and a total of
  \<open>0\<close>, whatever the store held before; the refresh is a total function of the
  response, so nothing is raised.
\<close>

theorem refresh_failure_empties:
  assumes "resp = Threw \<or> resp = NotOk status \<or> (\<exists>json. resp = Ok json \<and> None \<in> set (body_items json))"
  shows "orders (fetchGenesisOrders getTime s resp st) = []
       \<and> totalOrders (fetchGenesisOrders getTime s resp st) = 0"
  using assms
  by (auto simp: fetchGenesisOrders_def refresh_failed_def those_None_iff[symmetric])

theorem refresh_failure_empties_witness:
  "orders (fetchGenesisOrders utc_ms \<lparr>printerKey = ''genesis'', token = ''Q7F9''\<rparr> (NotOk 503)
       \<lparr>orders = [bare_order ''A100''], totalOrders = 41, loading = True\<rparr>) = []
   \<and> totalOrders (fetchGenesisOrders utc_ms \<lparr>printerKey = ''genesis'', token = ''Q7F9''\<rparr> (NotOk 503)
       \<lparr>orders = [bare_order ''A100''], totalOrders = 41, loading = True\<rparr>) = 0
   \<and> orders (fetchGenesisOrders utc_ms \<lparr>printerKey = ''genesis'', token = ''Q7F9''\<rparr> Threw
       \<lparr>orders = [bare_order ''A100''], totalOrders = 41, loading = True\<rparr>) = []
   \<and> orders (fetchGenesisOrders utc_ms \<lparr>printerKey = ''genesis'', token = ''Q7F9''\<rparr>
       (Ok (JArray [Some (bare_order ''A101''), None]))
       \<lparr>orders = [bare_order ''A100''], totalOrders = 41, loading = True\<rparr>) = []"
  using refresh_failure_empties[of "NotOk 503" 503 utc_ms "\<lparr>printerKey = ''genesis'', token = ''Q7F9''\<rparr>"
          "\<lparr>orders = [bare_order ''A100''], totalOrders = 41, loading = True\<rparr>"]
        refresh_failure_empties[of Threw 0 utc_ms "\<lparr>printerKey = ''genesis'', token = ''Q7F9''\<rparr>"
          "\<lparr>orders = [bare_order ''A100''], totalOrders = 41, loading = True\<rparr>"]
        refresh_failure_empties[of "Ok (JArray [Some (bare_order ''A101''), None])" 0 utc_ms "\<lparr>printerKey = ''genesis'', token = ''Q7F9''\<rparr>"
          "\<lparr>orders = [bare_order ''A100''], totalOrders = 41, loading = True\<rparr>"]
  by simp

lemma label_url_trim: "label_url (trim_order ord) = Some (or_empty (label_url ord))"
  by (simp add: trim_order_def)

lemma stored_label_url:
  "r \<in> set (orders (fetchGenesisOrders getTime s resp st)) \<Longrightarrow> label_url r \<noteq> None"
  by (auto simp: fetchGenesisOrders_def refresh_failed_def sort_orders_def label_url_trim
      split: if_splits response.splits option.splits)

text \<open>
  C10. An empty \<^verbatim>\<open>label_url\<close> counts as no label. The refresh stores the empty
  string for an absent \<^verbatim>\<open>label_url\<close> (and the same record for an absent and for
  an empty one), so every stored record has a string there. In the polling loop, an
  attempt whose OK response lists no record for a target, or a record without
  \<^verbatim>\<open>label_url\<close>, or one with the empty string, leaves the entry of that target as it
  was and does not return: the loop goes on to the timer and the next attempt. The
  completion patch never writes an empty string: a record that comes out with an empty
  \<^verbatim>\<open>label_url\<close> is the record that went in, and a record whose identifier has the
  empty string or \<^verbatim>\<open>null\<close> as its entry in the result comes out unchanged.
\<close>

theorem empty_label_is_absent:
  "label_url (trim_order (ord\<lparr>label_url := None\<rparr>)) = Some []
   \<and> trim_order (ord\<lparr>label_url := None\<rparr>) = trim_order (ord\<lparr>label_url := Some []\<rparr>)
   \<and> (\<forall>r\<in>set (orders (fetchGenesisOrders getTime s resp st)). label_url r \<noteq> None)
   \<and> (attempt < maxAttempts \<and> listing attempt = Ok json \<and> k \<in> set orderIds
        \<and> (listed (body_items json) k = None \<or> listed (body_items json) k = Some None
             \<or> listed (body_items json) k = Some (Some []))
       \<longrightarrow> props (fst (poll_attempt orderIds (listing attempt) result)) k = props result k
         \<and> poll_loop orderIds pollIntervalMs maxAttempts listing attempt result =
             (fst (poll_loop orderIds pollIntervalMs maxAttempts listing (Suc attempt)
                     (fst (poll_attempt orderIds (listing attempt) result))),
              Poll attempt # Delay pollIntervalMs #
                snd (poll_loop orderIds pollIntervalMs maxAttempts listing (Suc attempt)
                       (fst (poll_attempt orderIds (listing attempt) result)))))
   \<and> (patch_order pollResult ord = Order patched \<and> label_url patched = Some [] \<longrightarrow> patched = ord)
   \<and> (props pollResult (order_id ord) = Some (Some []) \<or> props pollResult (order_id ord) = Some None
        \<longrightarrow> patch_order pollResult ord = Order ord)"
proof (intro conjI impI ballI)
  show "label_url (trim_order (ord\<lparr>label_url := None\<rparr>)) = Some []"
    by (simp add: trim_order_def or_empty_def truthy_def)
  show "trim_order (ord\<lparr>label_url := None\<rparr>) = trim_order (ord\<lparr>label_url := Some []\<rparr>)"
    by (simp add: trim_order_def or_empty_def truthy_def)
next
  fix r assume "r \<in> set (orders (fetchGenesisOrders getTime s resp st))"
  then show "label_url r \<noteq> None" by (rule stored_label_url)
next
  assume h: "attempt < maxAttempts \<and> listing attempt = Ok json \<and> k \<in> set orderIds
        \<and> (listed (body_items json) k = None \<or> listed (body_items json) k = Some None
             \<or> listed (body_items json) k = Some (Some []))"
  then have un: "reported_label (listing attempt) k = None"
    by auto
  then show "props (fst (poll_attempt orderIds (listing attempt) result)) k = props result k"
    by (simp add: poll_attempt_props)
  have "\<not> reports_all orderIds (listing attempt)"
    using h un by (auto simp: reports_all_iff)
  then show "poll_loop orderIds pollIntervalMs maxAttempts listing attempt result =
             (fst (poll_loop orderIds pollIntervalMs maxAttempts listing (Suc attempt)
                     (fst (poll_attempt orderIds (listing attempt) result))),
              Poll attempt # Delay pollIntervalMs #
                snd (poll_loop orderIds pollIntervalMs maxAttempts listing (Suc attempt)
                       (fst (poll_attempt orderIds (listing attempt) result))))"
    using h by (simp add: poll_loop_step)
next
  assume "patch_order pollResult ord = Order patched \<and> label_url patched = Some []"
  then show "patched = ord"
    by (cases "obj_get pollResult (order_id ord)")
       (auto simp: patch_order_def js_or_def split: if_splits)
next
  assume "props pollResult (order_id ord) = Some (Some []) \<or> props pollResult (order_id ord) = Some None"
  then show "patch_order pollResult ord = Order ord"
    by (auto simp: patch_order_def obj_get_def)
qed

theorem empty_label_is_absent_witness:
  "label_url (trim_order ((bare_order ''A100'')\<lparr>label_url := None\<rparr>)) = Some ''''
   \<and> map label_url (orders (fetchGenesisOrders utc_ms \<lparr>printerKey = ''genesis'', token = ''Q7F9''\<rparr>
         (Ok (JArray [Some ((bare_order ''A100'')\<lparr>printer := Some ''Genesis''\<rparr>)]))
         \<lparr>orders = [], totalOrders = 0, loading = False\<rparr>)) = [Some '''']
   \<and> poll_loop [''A100''] 3000 2
         (\<lambda>a. Ok (JArray [Some ((bare_order ''A100'')\<lparr>label_url := Some ''''\<rparr>)])) 0
         \<lparr>props = [''A100'' \<mapsto> None], null_proto = False\<rparr>
       = (\<lparr>props = [''A100'' \<mapsto> None], null_proto = False\<rparr>, [Poll 0, Delay 3000, Poll 1, Delay 3000])
   \<and> patch_order \<lparr>props = [''A100'' \<mapsto> Some ''''], null_proto = False\<rparr>
         ((bare_order ''A100'')\<lparr>label_url := Some ''https://cdn/labels/old.pdf''\<rparr>)
       = Order ((bare_order ''A100'')\<lparr>label_url := Some ''https://cdn/labels/old.pdf''\<rparr>)"
proof -
  let ?L = "\<lambda>a::nat. Ok (JArray [Some ((bare_order ''A100'')\<lparr>label_url := Some ''''\<rparr>)])"
  let ?ord = "(bare_order ''A100'')\<lparr>label_url := Some ''https://cdn/labels/old.pdf''\<rparr>"
  let ?r = "\<lparr>props = [''A100'' \<mapsto> None], null_proto = False\<rparr>"
  let ?res = "\<lparr>props = [''A100'' \<mapsto> Some ''''], null_proto = False\<rparr>"
  note c = empty_label_is_absent[where ord = ?ord and getTime = utc_ms
      and s = "\<lparr>printerKey = ''genesis'', token = ''Q7F9''\<rparr>"
      and resp = "Ok (JArray [Some ((bare_order ''A100'')\<lparr>printer := Some ''Genesis''\<rparr>)])"
      and st = "\<lparr>orders = [], totalOrders = 0, loading = False\<rparr>"
      and attempt = 0 and maxAttempts = 2 and listing = ?L
      and json = "JArray [Some ((bare_order ''A100'')\<lparr>label_url := Some ''''\<rparr>)]"
      and k = "''A100''" and orderIds = "[''A100'']" and result = ?r
      and pollIntervalMs = 3000 and pollResult = ?res and patched = ?ord]
  have step0: "poll_loop [''A100''] 3000 2 ?L 0 ?r =
      (fst (poll_loop [''A100''] 3000 2 ?L (Suc 0) (fst (poll_attempt [''A100''] (?L 0) ?r))),
       Poll 0 # Delay 3000 # snd (poll_loop [''A100''] 3000 2 ?L (Suc 0) (fst (poll_attempt [''A100''] (?L 0) ?r))))"
    and keep: "props (fst (poll_attempt [''A100''] (?L 0) ?r)) ''A100'' = props ?r ''A100''"
    using c[THEN conjunct2, THEN conjunct2, THEN conjunct2, THEN conjunct1]
    by (simp_all add: bare_order_def)
  have "props (fst (poll_attempt [''A100''] (?L 0) ?r)) = props ?r"
    using keep by (auto simp: poll_attempt_props fun_eq_iff bare_order_def simp del: poll_attempt.simps)
  then have same: "fst (poll_attempt [''A100''] (?L 0) ?r) = ?r"
    by (intro js_object_eqI) (simp_all add: poll_attempt_null_proto del: poll_attempt.simps)
  have no: "\<not> reports_all [''A100''] (?L (Suc 0))"
    by (simp add: bare_order_def)
  have rest: "poll_loop [''A100''] 3000 2 ?L (Suc 0) ?r = (?r, [Poll 1, Delay 3000])"
    using no same by (simp add: poll_loop_step poll_loop_done numeral_2_eq_2)
  have stored: "map label_url (orders (fetchGenesisOrders utc_ms \<lparr>printerKey = ''genesis'', token = ''Q7F9''\<rparr>
         (Ok (JArray [Some ((bare_order ''A100'')\<lparr>printer := Some ''Genesis''\<rparr>)]))
         \<lparr>orders = [], totalOrders = 0, loading = False\<rparr>)) = [Some '''']"
    by (simp add: fetchGenesisOrders_def sort_orders_def keep_order_def trim_order_def bare_order_def
        toLowerCase_def toUpperCase_def lower_char_def upper_char_def startsWith_def or_empty_def truthy_def)
  have trim: "label_url (trim_order ((bare_order ''A100'')\<lparr>label_url := None\<rparr>)) = Some []"
    using c[THEN conjunct1] by simp
  have patch: "patch_order ?res ?ord = Order ?ord"
    using c[THEN conjunct2, THEN conjunct2, THEN conjunct2, THEN conjunct2, THEN conjunct2]
    by (simp add: bare_order_def)
  show ?thesis
    using trim stored step0 same rest patch by simp
qed

section \<open>The order of the refreshed records\<close>

lemma no_timestamp_parse: "\<not> truthy v \<Longrightarrow> parse getTime v = 0"
  by (cases v) (auto simp: truthy_def)

lemma sort_orders_mset: "mset (sort_orders getTime recs) = mset recs"
  by (simp add: sort_orders_def)

lemma sort_orders_length: "length (sort_orders getTime recs) = length recs"
  by (simp add: sort_orders_def)

lemma sort_orders_descending:
  assumes "i < j" and "j < length recs"
  shows "parse getTime (print_sent_at (sort_orders getTime recs ! j))
       \<le> parse getTime (print_sent_at (sort_orders getTime recs ! i))"
proof -
  let ?f = "\<lambda>ord. - parse getTime (print_sent_at ord)"
  let ?out = "sort_key ?f recs"
  have "sorted (map ?f ?out)" by (rule sorted_sort_key)
  moreover have "i \<le> j" and "j < length (map ?f ?out)" using assms by simp_all
  ultimately have "map ?f ?out ! i \<le> map ?f ?out ! j"
    by (rule sorted_nth_mono)
  then show ?thesis using assms by (simp add: sort_orders_def)
qed

lemma sort_orders_stable:
  "filter (\<lambda>r. \<not> truthy (print_sent_at r)) (sort_orders getTime recs)
     = filter (\<lambda>r. \<not> truthy (print_sent_at r)) recs"
proof -
  let ?f = "\<lambda>ord. - parse getTime (print_sent_at ord)"
  let ?P = "\<lambda>r. \<not> truthy (print_sent_at r)"
  have split: "filter ?P xs = filter ?P (filter (\<lambda>y. ?f y = 0) xs)" for xs
    by (rule filter_cong[OF refl, THEN trans[OF _ filter_filter[symmetric]]])
       (auto simp: no_timestamp_parse)
  have "filter ?P (sort_key ?f recs) = filter ?P (filter (\<lambda>y. ?f y = 0) (sort_key ?f recs))"
    by (rule split)
  also have "\<dots> = filter ?P (filter (\<lambda>y. ?f y = 0) recs)"
    by (simp only: sort_key_stable)
  also have "\<dots> = filter ?P recs"
    by (rule split[symmetric])
  finally show ?thesis by (simp add: sort_orders_def)
qed

lemma refresh_orders:
  "token s \<noteq> [] \<Longrightarrow> those (body_items json) = Some data \<Longrightarrow>
     orders (fetchGenesisOrders getTime s (Ok json) st) =
       sort_orders getTime (map trim_order (filter (keep_order (printerKey s)) data))"
  by (simp add: fetchGenesisOrders_def)

lemma parse_before_epoch: "parse utc_ms (Some ''1969-12-31T23:59:59'') = - 1000"
  by (simp add: normalized_def has_zone_def ends_with_offset_def is_digit_def is_sign_def
        utc_ms_def utc_fields_def days_from_civil_def days_in_month_def leap_year_def)

lemma keep_genesis:
  "keep_order ''genesis'' ((bare_order ''A100'')\<lparr>printer := Some ''genesis'', print_sent_at := v\<rparr>)"
  "keep_order ''genesis'' ((bare_order ''A101'')\<lparr>printer := Some ''genesis'', print_sent_at := v\<rparr>)"
  "keep_order ''genesis'' ((bare_order ''A102'')\<lparr>printer := Some ''genesis'', print_sent_at := v\<rparr>)"
  "keep_order ''genesis'' ((bare_order ''A103'')\<lparr>printer := Some ''genesis'', print_sent_at := v\<rparr>)"
  by (simp_all add: keep_order_def bare_order_def toLowerCase_def toUpperCase_def lower_char_def
      upper_char_def startsWith_def)

lemma trim_fields:
  "order_id (trim_order ord) = order_id ord"
  "print_sent_at (trim_order ord) = Some (or_empty (print_sent_at ord))"
  by (simp_all add: trim_order_def)

lemma or_empty_simps: "or_empty None = []" "or_empty (Some s) = s"
  by (simp_all add: or_empty_def truthy_def)

lemma parse_examples:
  "parse utc_ms (Some ''2024-01-05T10:00:00.123456'') = 1704448800123"
  "parse utc_ms (Some ''2024-01-06T09:00:00'') = 1704531600000"
  by (simp_all add: normalized_def has_zone_def ends_with_offset_def is_digit_def is_sign_def
        utc_ms_def utc_fields_def days_from_civil_def days_in_month_def leap_year_def)

text \<open>
  C7, as the code has it. The records of a successful refresh are the filtered and
  normalised records of the response, rearranged: a record never stands before one whose
  \<^verbatim>\<open>print_sent_at\<close> parses to a later instant; no record whose timestamp parses to
  an instant after the epoch stands behind a record without timestamp; and the records
  without timestamp keep the order they had in the response. A record without timestamp
  counts as the epoch itself, so nothing is said about timestamps that do not parse or
  that lie at or before the epoch.
\<close>

theorem refresh_sort_law:
  assumes "token s \<noteq> []" and "those (body_items json) = Some data"
  shows "mset (orders (fetchGenesisOrders getTime s (Ok json) st))
           = mset (map trim_order (filter (keep_order (printerKey s)) data))
     \<and> (\<forall>i j. i < j \<and> j < length (orders (fetchGenesisOrders getTime s (Ok json) st)) \<longrightarrow>
           parse getTime (print_sent_at (orders (fetchGenesisOrders getTime s (Ok json) st) ! j))
             \<le> parse getTime (print_sent_at (orders (fetchGenesisOrders getTime s (Ok json) st) ! i)))
     \<and> (\<forall>i j. i < j \<and> j < length (orders (fetchGenesisOrders getTime s (Ok json) st))
              \<and> \<not> truthy (print_sent_at (orders (fetchGenesisOrders getTime s (Ok json) st) ! i)) \<longrightarrow>
           parse getTime (print_sent_at (orders (fetchGenesisOrders getTime s (Ok json) st) ! j)) \<le> 0)
     \<and> filter (\<lambda>r. \<not> truthy (print_sent_at r)) (orders (fetchGenesisOrders getTime s (Ok json) st))
           = filter (\<lambda>r. \<not> truthy (print_sent_at r))
               (map trim_order (filter (keep_order (printerKey s)) data))"
proof -
  let ?inp = "map trim_order (filter (keep_order (printerKey s)) data)"
  have out: "orders (fetchGenesisOrders getTime s (Ok json) st) = sort_orders getTime ?inp"
    using assms by (rule refresh_orders)
  have desc: "parse getTime (print_sent_at (sort_orders getTime ?inp ! j))
       \<le> parse getTime (print_sent_at (sort_orders getTime ?inp ! i))"
    if "i < j" "j < length (sort_orders getTime ?inp)" for i j
    using that sort_orders_descending[of i j ?inp getTime] by (simp add: sort_orders_length)
  have last: "parse getTime (print_sent_at (sort_orders getTime ?inp ! j)) \<le> 0"
    if "i < j" "j < length (sort_orders getTime ?inp)"
       "\<not> truthy (print_sent_at (sort_orders getTime ?inp ! i))" for i j
    using desc[OF that(1,2)] no_timestamp_parse[OF that(3), of getTime] by simp
  show ?thesis
    unfolding out
  proof (intro conjI allI impI)
    show "mset (sort_orders getTime ?inp) = mset ?inp"
      by (rule sort_orders_mset)
    show "filter (\<lambda>r. \<not> truthy (print_sent_at r)) (sort_orders getTime ?inp)
        = filter (\<lambda>r. \<not> truthy (print_sent_at r)) ?inp"
      by (rule sort_orders_stable)
  next
    fix i j assume "i < j \<and> j < length (sort_orders getTime ?inp)"
    then show "parse getTime (print_sent_at (sort_orders getTime ?inp ! j))
       \<le> parse getTime (print_sent_at (sort_orders getTime ?inp ! i))"
      by (simp add: desc)
  next
    fix i j assume "i < j \<and> j < length (sort_orders getTime ?inp)
        \<and> \<not> truthy (print_sent_at (sort_orders getTime ?inp ! i))"
    then show "parse getTime (print_sent_at (sort_orders getTime ?inp ! j)) \<le> 0"
      using last[of i j] by simp
  qed
qed

theorem refresh_sort_law_witness:
  "map order_id (orders (fetchGenesisOrders utc_ms \<lparr>printerKey = ''genesis'', token = ''Q7F9''\<rparr>
     (Ok (JObject (Some
        [Some ((bare_order ''A100'')\<lparr>printer := Some ''genesis'', print_sent_at := Some ''2024-01-05T10:00:00.123456''\<rparr>),
         Some ((bare_order ''A101'')\<lparr>printer := Some ''genesis'', print_sent_at := None\<rparr>),
         Some ((bare_order ''A102'')\<lparr>printer := Some ''genesis'', print_sent_at := Some ''2024-01-06T09:00:00''\<rparr>),
         Some ((bare_order ''A103'')\<lparr>printer := Some ''genesis'', print_sent_at := Some ''''\<rparr>)]) (Some 4)))
     \<lparr>orders = [], totalOrders = 0, loading = False\<rparr>))
   = [''A102'', ''A100'', ''A101'', ''A103'']
  \<and> map order_id (filter (\<lambda>r. \<not> truthy (print_sent_at r))
      (orders (fetchGenesisOrders utc_ms \<lparr>printerKey = ''genesis'', token = ''Q7F9''\<rparr>
     (Ok (JObject (Some
        [Some ((bare_order ''A100'')\<lparr>printer := Some ''genesis'', print_sent_at := Some ''2024-01-05T10:00:00.123456''\<rparr>),
         Some ((bare_order ''A101'')\<lparr>printer := Some ''genesis'', print_sent_at := None\<rparr>),
         Some ((bare_order ''A102'')\<lparr>printer := Some ''genesis'', print_sent_at := Some ''2024-01-06T09:00:00''\<rparr>),
         Some ((bare_order ''A103'')\<lparr>printer := Some ''genesis'', print_sent_at := Some ''''\<rparr>)]) (Some 4)))
     \<lparr>orders = [], totalOrders = 0, loading = False\<rparr>)))
   = [''A101'', ''A103'']"
proof -
  let ?a = "(bare_order ''A100'')\<lparr>printer := Some ''genesis'', print_sent_at := Some ''2024-01-05T10:00:00.123456''\<rparr>"
  let ?b = "(bare_order ''A101'')\<lparr>printer := Some ''genesis'', print_sent_at := None\<rparr>"
  let ?c = "(bare_order ''A102'')\<lparr>printer := Some ''genesis'', print_sent_at := Some ''2024-01-06T09:00:00''\<rparr>"
  let ?d = "(bare_order ''A103'')\<lparr>printer := Some ''genesis'', print_sent_at := Some ''''\<rparr>"
  let ?s = "\<lparr>printerKey = ''genesis'', token = ''Q7F9''\<rparr>"
  let ?st = "\<lparr>orders = [], totalOrders = 0, loading = False\<rparr>"
  let ?json = "JObject (Some [Some ?a, Some ?b, Some ?c, Some ?d]) (Some 4)"
  let ?out = "orders (fetchGenesisOrders utc_ms ?s (Ok ?json) ?st)"
  have pa: "parse utc_ms (print_sent_at (trim_order ?a)) = 1704448800123"
    using parse_examples(1) by (simp add: trim_fields or_empty_simps)
  have pb: "parse utc_ms (print_sent_at (trim_order ?b)) = 0"
    by (simp add: trim_fields or_empty_simps)
  have pc: "parse utc_ms (print_sent_at (trim_order ?c)) = 1704531600000"
    using parse_examples(2) by (simp add: trim_fields or_empty_simps)
  have pd: "parse utc_ms (print_sent_at (trim_order ?d)) = 0"
    by (simp add: trim_fields or_empty_simps)
  have inp: "map trim_order (filter (keep_order (printerKey ?s)) [?a, ?b, ?c, ?d])
      = [trim_order ?a, trim_order ?b, trim_order ?c, trim_order ?d]"
    by (simp add: keep_genesis)
  have "?out = sort_orders utc_ms [trim_order ?a, trim_order ?b, trim_order ?c, trim_order ?d]"
    by (simp add: fetchGenesisOrders_def keep_genesis)
  also have "\<dots> = [trim_order ?c, trim_order ?a, trim_order ?b, trim_order ?d]"
    using pa pb pc pd by (simp add: sort_orders_def)
  finally have out: "?out = [trim_order ?c, trim_order ?a, trim_order ?b, trim_order ?d]" .
  have hyp: "token ?s \<noteq> []" "those (body_items ?json) = Some [?a, ?b, ?c, ?d]"
    by simp_all
  have "filter (\<lambda>r. \<not> truthy (print_sent_at r)) ?out
      = filter (\<lambda>r. \<not> truthy (print_sent_at r)) [trim_order ?a, trim_order ?b, trim_order ?c, trim_order ?d]"
    using refresh_sort_law[OF hyp, of utc_ms ?st] inp by simp
  also have "\<dots> = [trim_order ?b, trim_order ?d]"
    by (simp add: trim_fields or_empty_simps truthy_def)
  finally have stable: "map order_id (filter (\<lambda>r. \<not> truthy (print_sent_at r)) ?out) = [''A101'', ''A103'']"
    by (simp add: trim_fields bare_order_def)
  have "map order_id ?out = [''A102'', ''A100'', ''A101'', ''A103'']"
    unfolding out by (simp add: trim_fields bare_order_def)
  with stable show ?thesis by simp
qed

text \<open>
  A response that lists a record dated one second before the epoch and then a record
  without \<^verbatim>\<open>print_sent_at\<close>: the refresh puts the record without timestamp first,
  before a record that has one.
\<close>

theorem refresh_sort_before_epoch:
  "map order_id (orders (fetchGenesisOrders utc_ms \<lparr>printerKey = ''genesis'', token = ''Q7F9''\<rparr>
     (Ok (JArray [Some ((bare_order ''A100'')\<lparr>printer := Some ''genesis'', print_sent_at := Some ''1969-12-31T23:59:59''\<rparr>),
                  Some ((bare_order ''A101'')\<lparr>printer := Some ''genesis'', print_sent_at := None\<rparr>)]))
     \<lparr>orders = [], totalOrders = 0, loading = False\<rparr>)) = [''A101'', ''A100'']"
proof -
  let ?a = "(bare_order ''A100'')\<lparr>printer := Some ''genesis'', print_sent_at := Some ''1969-12-31T23:59:59''\<rparr>"
  let ?b = "(bare_order ''A101'')\<lparr>printer := Some ''genesis'', print_sent_at := None\<rparr>"
  have pa: "parse utc_ms (print_sent_at (trim_order ?a)) = - 1000"
    using parse_before_epoch by (simp add: trim_fields or_empty_simps)
  have pb: "parse utc_ms (print_sent_at (trim_order ?b)) = 0"
    by (simp add: trim_fields or_empty_simps)
  have "orders (fetchGenesisOrders utc_ms \<lparr>printerKey = ''genesis'', token = ''Q7F9''\<rparr>
          (Ok (JArray [Some ?a, Some ?b])) \<lparr>orders = [], totalOrders = 0, loading = False\<rparr>)
        = sort_orders utc_ms [trim_order ?a, trim_order ?b]"
    by (simp add: fetchGenesisOrders_def keep_genesis)
  also have "\<dots> = [trim_order ?b, trim_order ?a]"
    using pa pb by (simp add: sort_orders_def)
  finally show ?thesis
    by (simp add: trim_fields bare_order_def)
qed

section \<open>Parsing \<^verbatim>\<open>print_sent_at\<close>\<close>


















end
